theory Spec2Isabelle
  imports Complex_Main "HOL-Library.Sublist" "HOL-Library.Log_Nat"
begin

text \<open>
  A model of \<open>static/js/main.js\<close>, the browser script of a page where a CSV file is
  uploaded and questions about it are sent to a server: the debug object with its log
  queue, byte formatter and status panel, and the handlers for upload and chat. Each
  function of the script is a function here on the state it reads and writes; a handler
  that waits for a request is split at the request into the part that runs at once and the
  part that runs when the request settles.
\<close>

section \<open>JavaScript values\<close>

text \<open>
  The values the script reads out of JSON bodies and passes around untyped. Of a number
  and of an object the script looks at two things only, its truthiness and the text
  \<open>String(v)\<close> gives for it: \<open>Num t s\<close> is a number that is truthy when \<open>t\<close> holds (it is
  neither zero nor \<open>NaN\<close>) and has the text \<open>s\<close>, and \<open>Obj s\<close> is any object or array, with
  the text \<open>s\<close>. A string is the list of the bytes of its UTF-8 encoding.
\<close>

datatype jsval = Undefined | Null | Bool bool | Num bool string | Str string | Obj string

text \<open>Truthiness, as tested by \<open>if (v)\<close>, \<open>!v\<close> and \<open>v || d\<close>.\<close>

fun truthy :: "jsval \<Rightarrow> bool" where
  "truthy Undefined = False"
| "truthy Null = False"
| "truthy (Bool b) = b"
| "truthy (Num t s) = t"
| "truthy (Str s) = (s \<noteq> [])"
| "truthy (Obj s) = True"

text \<open>Decimal digits of a natural number, most significant first.\<close>

definition digit_char :: "nat \<Rightarrow> char" where
  "digit_char n = ''0123456789'' ! n"

fun show_nat :: "nat \<Rightarrow> string" where
  "show_nat n =
     (if n < 10 then [digit_char n] else show_nat (n div 10) @ [digit_char (n mod 10)])"

text \<open>
  The string conversion applied by \<open>+\<close> with a string operand and by \<open>new Error(v)\<close>.
\<close>

fun to_string :: "jsval \<Rightarrow> string" where
  "to_string (Str s) = s"
| "to_string Undefined = ''undefined''"
| "to_string Null = ''null''"
| "to_string (Bool b) = (if b then ''true'' else ''false'')"
| "to_string (Num t s) = s"
| "to_string (Obj s) = s"

text \<open>\<open>s.endsWith(t)\<close>.\<close>

definition endsWith :: "string \<Rightarrow> string \<Rightarrow> bool" where
  "endsWith s t = (length t \<le> length s \<and> drop (length s - length t) s = t)"

text \<open>
  The code points \<open>s.trim()\<close> strips, each as its UTF-8 bytes: tab, line feed, vertical
  tab, form feed, carriage return, space, U+00A0, U+1680, U+2000 to U+200A, U+2028,
  U+2029, U+202F, U+205F, U+3000 and U+FEFF.
\<close>

definition white_space :: "string list" where
  "white_space =
     [[CHR 0x09], [CHR 0x0A], [CHR 0x0B], [CHR 0x0C], [CHR 0x0D], [CHR 0x20],
      [CHR 0xC2, CHR 0xA0],
      [CHR 0xE1, CHR 0x9A, CHR 0x80],
      [CHR 0xE2, CHR 0x80, CHR 0x80], [CHR 0xE2, CHR 0x80, CHR 0x81],
      [CHR 0xE2, CHR 0x80, CHR 0x82], [CHR 0xE2, CHR 0x80, CHR 0x83],
      [CHR 0xE2, CHR 0x80, CHR 0x84], [CHR 0xE2, CHR 0x80, CHR 0x85],
      [CHR 0xE2, CHR 0x80, CHR 0x86], [CHR 0xE2, CHR 0x80, CHR 0x87],
      [CHR 0xE2, CHR 0x80, CHR 0x88], [CHR 0xE2, CHR 0x80, CHR 0x89],
      [CHR 0xE2, CHR 0x80, CHR 0x8A],
      [CHR 0xE2, CHR 0x80, CHR 0xA8], [CHR 0xE2, CHR 0x80, CHR 0xA9],
      [CHR 0xE2, CHR 0x80, CHR 0xAF],
      [CHR 0xE2, CHR 0x81, CHR 0x9F],
      [CHR 0xE3, CHR 0x80, CHR 0x80],
      [CHR 0xEF, CHR 0xBB, CHR 0xBF]]"

text \<open>
  Stripping from the front every leading occurrence of one of the byte sequences \<open>ws\<close>;
  \<open>trim\<close> strips the white space from the front and, reading backwards, from the end.
\<close>

function strip :: "string list \<Rightarrow> string \<Rightarrow> string" where
  "strip ws s =
     (case find (\<lambda>w. w \<noteq> [] \<and> prefix w s) ws of
        None \<Rightarrow> s
      | Some w \<Rightarrow> strip ws (drop (length w) s))"
  by pat_completeness auto
termination
proof (relation "measure (\<lambda>(ws, s). length s)")
  show "wf (measure (\<lambda>(ws, s). length s))" by simp
next
  fix ws :: "string list" and s w :: string
  assume "find (\<lambda>w. w \<noteq> [] \<and> prefix w s) ws = Some w"
  then have "w \<noteq> []" and "prefix w s"
    by (auto simp: find_Some_iff)
  then have "0 < length w" and "length w \<le> length s"
    by (simp_all add: prefix_length_le)
  then have "length s - length w < length s"
    by linarith
  then show "((ws, drop (length w) s), (ws, s)) \<in> measure (\<lambda>(ws, s). length s)"
    by simp
qed

declare strip.simps [simp del]

definition trim :: "string \<Rightarrow> string" where
  "trim s = rev (strip (map rev white_space) (rev (strip white_space s)))"

section \<open>The debug log queue\<close>

text \<open>
  An entry of \<open>debug.logQueue\<close>. The object literals of \<open>log\<close> and \<open>warn\<close> have the keys
  \<open>type, timestamp, message, data\<close>, the one of \<open>error\<close> has \<open>error\<close> in place of \<open>data\<close>; a key
  the literal does not have reads as \<open>Undefined\<close>. The keys \<open>type\<close> and \<open>error\<close> are the fields
  \<open>etype\<close> and \<open>err\<close>.
\<close>

record log_entry =
  etype :: string
  timestamp :: string
  message :: string
  data :: jsval
  err :: jsval

text \<open>
  The \<open>debug\<close> object, with the part of the page \<open>addLogEntry\<close> writes: \<open>recentLogs\<close> is
  \<open>None\<close> when the page has no element of that id, and otherwise the entries its markup was
  last generated from, in the order \<open>formatLogEntries\<close> lists them (the template applied to
  each entry is not modelled).
\<close>

record debug =
  enabled :: bool
  logQueue :: "log_entry list"
  maxLogEntries :: nat
  recentLogs :: "log_entry list option"

definition debug_initial :: "log_entry list option \<Rightarrow> debug" where
  "debug_initial container =
     \<lparr>enabled = True, logQueue = [], maxLogEntries = 100, recentLogs = container\<rparr>"

text \<open>\<open>formatLogEntries\<close>: \<open>this.logQueue.map(...)\<close>, front to back.\<close>

definition formatLogEntries :: "debug \<Rightarrow> log_entry list" where
  "formatLogEntries d = map (\<lambda>entry. entry) (logQueue d)"

text \<open>
  \<open>addLogEntry\<close>: \<open>unshift\<close> puts the entry at index 0, \<open>pop\<close> removes the last element when
  the length has passed \<open>maxLogEntries\<close>; then the container, when present, is rewritten.
\<close>

definition addLogEntry :: "log_entry \<Rightarrow> debug \<Rightarrow> debug" where
  "addLogEntry entry d =
     (let q1 = entry # logQueue d;
          q2 = (if length q1 > maxLogEntries d then butlast q1 else q1);
          d2 = d\<lparr>logQueue := q2\<rparr>
      in case recentLogs d2 of
           None \<Rightarrow> d2
         | Some _ \<Rightarrow> d2\<lparr>recentLogs := Some (formatLogEntries d2)\<rparr>)"

text \<open>
  \<open>debug.log\<close>, \<open>debug.error\<close> and \<open>debug.warn\<close>. The clock reading
  \<open>new Date().toISOString()\<close> is the argument \<open>ts\<close>; the second argument is \<open>Null\<close> when
  the caller leaves it out. Only \<open>log\<close> looks at \<open>enabled\<close>. The console output is not
  modelled.
\<close>

definition debug_log :: "string \<Rightarrow> jsval \<Rightarrow> string \<Rightarrow> debug \<Rightarrow> debug" where
  "debug_log msg dat ts d =
     (if enabled d
      then addLogEntry \<lparr>etype = ''info'', timestamp = ts, message = msg,
                         data = dat, err = Undefined\<rparr> d
      else d)"

definition debug_error :: "string \<Rightarrow> jsval \<Rightarrow> string \<Rightarrow> debug \<Rightarrow> debug" where
  "debug_error msg e ts d =
     addLogEntry \<lparr>etype = ''error'', timestamp = ts, message = msg,
                   data = Undefined, err = e\<rparr> d"

definition debug_warn :: "string \<Rightarrow> jsval \<Rightarrow> string \<Rightarrow> debug \<Rightarrow> debug" where
  "debug_warn msg dat ts d =
     addLogEntry \<lparr>etype = ''warn'', timestamp = ts, message = msg,
                   data = dat, err = Undefined\<rparr> d"

text \<open>A call of one of the three, and a sequence of calls run in order.\<close>

datatype log_call =
    CallLog string jsval string
  | CallError string jsval string
  | CallWarn string jsval string

fun entry_of :: "log_call \<Rightarrow> log_entry" where
  "entry_of (CallLog msg dat ts) =
     \<lparr>etype = ''info'', timestamp = ts, message = msg, data = dat, err = Undefined\<rparr>"
| "entry_of (CallError msg e ts) =
     \<lparr>etype = ''error'', timestamp = ts, message = msg, data = Undefined, err = e\<rparr>"
| "entry_of (CallWarn msg dat ts) =
     \<lparr>etype = ''warn'', timestamp = ts, message = msg, data = dat, err = Undefined\<rparr>"

fun do_call :: "log_call \<Rightarrow> debug \<Rightarrow> debug" where
  "do_call (CallLog msg dat ts) d = debug_log msg dat ts d"
| "do_call (CallError msg e ts) d = debug_error msg e ts d"
| "do_call (CallWarn msg dat ts) d = debug_warn msg dat ts d"

fun do_calls :: "log_call list \<Rightarrow> debug \<Rightarrow> debug" where
  "do_calls [] d = d"
| "do_calls (c # cs) d = do_calls cs (do_call c d)"

section \<open>The byte formatter\<close>

text \<open>
  \<open>debug.formatBytes\<close>, for a byte count that is a natural number. The arithmetic is the
  exact one over the reals, extended by the values \<open>-Infinity\<close>, \<open>Infinity\<close> and \<open>NaN\<close> where
  the script's expressions produce them. The rounding of the engine's double-precision
  \<open>Math.log\<close> and division is not part of the model: the index computed here is the
  floor of the exact logarithm, which an engine can miss by one on a count within a few
  units of a power of 1024 from \<open>1024^5\<close> on.
\<close>

definition sizes :: "string list" where
  "sizes = [''Bytes'', ''KB'', ''MB'', ''GB'']"

text \<open>
  \<open>Math.floor(Math.log(bytes) / Math.log(k))\<close> with \<open>k = 1024\<close>. \<open>Math.log(0)\<close> is
  \<open>-Infinity\<close>, and so are its quotient by the positive \<open>Math.log(k)\<close> and the floor of
  the quotient.
\<close>

datatype index = NegInfinity | Index int

definition unit_index :: "nat \<Rightarrow> index" where
  "unit_index bytes =
     (if bytes = 0 then NegInfinity else Index \<lfloor>ln (real bytes) / ln 1024\<rfloor>)"

text \<open>
  \<open>bytes / Math.pow(k, i)\<close>. \<open>Math.pow(k, -Infinity)\<close> is zero; zero divided by zero is
  \<open>NaN\<close>, a positive count divided by zero is \<open>Infinity\<close>.
\<close>

datatype number = NaN | Infinity | Finite real

definition scaled :: "nat \<Rightarrow> index \<Rightarrow> number" where
  "scaled bytes i =
     (case i of
        NegInfinity \<Rightarrow> (if bytes = 0 then NaN else Infinity)
      | Index j \<Rightarrow> Finite (real bytes / 1024 powr real_of_int j))"

text \<open>
  \<open>x.toFixed(2)\<close> for a finite \<open>x\<close> from zero up to, not including, \<open>10^21\<close>: the decimal
  with two fraction digits nearest to \<open>x\<close>, the larger one on a tie. The result is given as
  its number of hundredths.
\<close>

definition toFixed2 :: "real \<Rightarrow> nat" where
  "toFixed2 x = nat \<lfloor>x * 100 + 1 / 2\<rfloor>"

text \<open>
  \<open>parseFloat\<close> of that decimal, converted back to a string by the concatenation: the
  number of \<open>h\<close> hundredths printed with no trailing zero and no bare decimal point.
\<close>

definition number_text :: "nat \<Rightarrow> string" where
  "number_text h =
     (let ip = h div 100; fp = h mod 100
      in if fp = 0 then show_nat ip
         else if fp mod 10 = 0 then show_nat ip @ ''.'' @ [digit_char (fp div 10)]
         else show_nat ip @ ''.'' @ [digit_char (fp div 10), digit_char (fp mod 10)])"

text \<open>
  \<open>parseFloat(x.toFixed(2))\<close> as the concatenation prints it: \<open>toFixed\<close> gives \<open>NaN\<close> and
  \<open>Infinity\<close> by their names and \<open>parseFloat\<close> reads the names back.
\<close>

definition fixed_text :: "number \<Rightarrow> string" where
  "fixed_text x =
     (case x of
        NaN \<Rightarrow> ''NaN''
      | Infinity \<Rightarrow> ''Infinity''
      | Finite r \<Rightarrow> number_text (toFixed2 r))"

text \<open>
  Indexing an array: an index that is not one of its positions reads \<open>Undefined\<close>.
\<close>

definition array_get :: "string list \<Rightarrow> index \<Rightarrow> jsval" where
  "array_get xs i =
     (case i of
        NegInfinity \<Rightarrow> Undefined
      | Index j \<Rightarrow> if 0 \<le> j \<and> j < int (length xs) then Str (xs ! nat j) else Undefined)"

text \<open>The return expression of \<open>formatBytes\<close> for a given index \<open>i\<close>.\<close>

definition format_with :: "nat \<Rightarrow> index \<Rightarrow> string" where
  "format_with bytes i =
     fixed_text (scaled bytes i) @ '' '' @ to_string (array_get sizes i)"

text \<open>
  \<open>formatBytes\<close>: the test for zero, and \<open>format_scaled\<close> for the statements after it.
\<close>

definition format_scaled :: "nat \<Rightarrow> string" where
  "format_scaled bytes = (let i = unit_index bytes in format_with bytes i)"

definition formatBytes :: "nat \<Rightarrow> string" where
  "formatBytes bytes = (if bytes = 0 then ''0 Bytes'' else format_scaled bytes)"

section \<open>The debug panel\<close>

text \<open>
  What \<open>setupDebugPanel\<close> and its two callbacks read and write: whether the page has both
  the toggle and the panel, whether the panel carries the class \<open>show\<close>, whether the click
  listener and the 5000 ms interval have been registered, and how many times
  \<open>fetch('/debug/status')\<close> has been called. What the response handlers of
  \<open>updateSystemStatus\<close> draw is not modelled.
\<close>

record panel =
  elements_present :: bool
  shown :: bool
  wired :: bool
  status_fetches :: nat

definition updateSystemStatus :: "panel \<Rightarrow> panel" where
  "updateSystemStatus p = p\<lparr>status_fetches := Suc (status_fetches p)\<rparr>"

text \<open>The click listener of the toggle.\<close>

definition on_toggle_click :: "panel \<Rightarrow> panel" where
  "on_toggle_click p =
     (let p1 = p\<lparr>shown := \<not> shown p\<rparr>
      in if shown p1 then updateSystemStatus p1 else p1)"

text \<open>The callback of \<open>setInterval(..., 5000)\<close>.\<close>

definition on_interval_tick :: "panel \<Rightarrow> panel" where
  "on_interval_tick p = (if shown p then updateSystemStatus p else p)"

text \<open>
  \<open>setupDebugPanel\<close>: with both elements present it registers the listener, calls
  \<open>updateSystemStatus\<close> and starts the interval.
\<close>

definition setupDebugPanel :: "panel \<Rightarrow> panel" where
  "setupDebugPanel p =
     (if elements_present p then (updateSystemStatus p)\<lparr>wired := True\<rparr> else p)"

text \<open>\<open>debug.init\<close>, as far as the panel goes.\<close>

definition init_panel :: "debug \<Rightarrow> panel \<Rightarrow> panel" where
  "init_panel d p = (if \<not> enabled d then p else setupDebugPanel p)"

text \<open>
  What happens to the panel after the setup: a click on the toggle, or the interval timer
  firing. Neither has an effect when the callbacks were never registered.
\<close>

datatype panel_event = ToggleClick | IntervalTick

fun panel_step :: "panel_event \<Rightarrow> panel \<Rightarrow> panel" where
  "panel_step ToggleClick p = (if wired p then on_toggle_click p else p)"
| "panel_step IntervalTick p = (if wired p then on_interval_tick p else p)"

fun panel_run :: "panel_event list \<Rightarrow> panel \<Rightarrow> panel" where
  "panel_run [] p = p"
| "panel_run (ev # evs) p = panel_run evs (panel_step ev p)"

section \<open>The upload and chat page\<close>

text \<open>
  The state the handlers registered at \<open>DOMContentLoaded\<close> share. Of a \<open>File\<close> only the name
  is read. \<open>dropZone\<close> lists the children this script appends to the drop zone, in order: a
  spinner, or the file badge. The markup of the badge is built from the file name as it
  is, so the parsed badge can hold elements the name brings in: \<open>FileInfo n k\<close> is the badge
  for the name \<open>n\<close> that holds \<open>k\<close> elements of id \<open>loadingSpinner\<close>, counting none that lies
  inside another. An element of \<open>chatMessages\<close> has an identity, its class attribute, and
  its content as assigned either through \<open>innerHTML\<close> (parsed as markup) or through
  \<open>textContent\<close> (kept as text). \<open>notifications\<close> lists the toasts appended to the document
  body and \<open>requests\<close> the calls of \<open>fetch\<close> on the upload and query endpoints, both in
  order. \<open>rowCount\<close>, \<open>colCount\<close> and \<open>previewContent\<close> hold what was last assigned to the
  element found under that id. Scroll positions, the timers that fade a toast out and the
  drag-over highlight are not modelled; the page's own markup, the preview and the
  messages are taken to hold no element of id \<open>loadingSpinner\<close>.
\<close>

record file_obj =
  name :: string

datatype request = Upload file_obj | Query string

datatype dz_child = Spinner | FileInfo string nat

datatype content = Html string | Text jsval

record node =
  nid :: nat
  className :: string
  body :: content

record notification =
  ntext :: string
  nclass :: string

record page =
  dropZone :: "dz_child list"
  currentFile :: "file_obj option"
  csvFile_value :: string
  stats_hidden :: bool
  rowCount :: jsval
  colCount :: jsval
  previewContent :: jsval
  queryInput_disabled :: bool
  queryBtn_disabled :: bool
  clearChat_disabled :: bool
  queryInput_value :: string
  chatMessages :: "node list"
  next_id :: nat
  notifications :: "notification list"
  requests :: "request list"

text \<open>
  What the script calls but does not define: \<open>md.render\<close> of markdown-it, which returns
  markup or throws (\<open>Inl\<close> the message of what it throws); the message the engine gives
  the \<open>TypeError\<close> of reading a property of \<open>undefined\<close> or \<open>null\<close>; and the browser's
  parser on the markup of the file badge, as far as the script depends on it: for a file
  name, how many elements of id \<open>loadingSpinner\<close> the parsed badge holds (none inside
  another counted), and whether it still has an element of class \<open>delete-file\<close>, which a
  name that opens a comment or a text area swallows.
\<close>

record env =
  md_render :: "jsval \<Rightarrow> string + string"
  type_error_message :: "jsval \<Rightarrow> string \<Rightarrow> string"
  badge_spinner_ids :: "string \<Rightarrow> nat"
  badge_has_delete :: "string \<Rightarrow> bool"

text \<open>
  How a request ends: the promise chain rejects before the second \<open>then\<close> (the network
  failed or the body is not JSON) with an error of the given message, or the body parses.
  A parsed body is \<open>None\<close> for the JSON \<open>null\<close> and otherwise the fields the handler reads.
\<close>

datatype 'a settled = Rejected string | Resolved "'a option"

text \<open>
  The field \<open>stats\<close> of an upload body: \<open>NoStats v\<close> when it is \<open>v\<close>, one of \<open>undefined\<close> and
  \<open>null\<close>, and otherwise what its properties \<open>rows\<close> and \<open>columns\<close> read.
\<close>

datatype stats_field = NoStats jsval | Stats jsval jsval

record upload_data =
  u_error :: jsval
  u_stats :: stats_field
  u_preview :: jsval

record query_data =
  q_error :: jsval
  q_response :: jsval

subsection \<open>Notifications and the spinner\<close>

definition showNotification :: "string \<Rightarrow> string \<Rightarrow> page \<Rightarrow> page" where
  "showNotification msg type s =
     s\<lparr>notifications := notifications s @
          [\<lparr>ntext = msg,
            nclass = ''alert alert-'' @ (if type = ''error'' then ''danger'' else ''success'')
                       @ '' notification''\<rparr>]\<rparr>"

definition showLoadingSpinner :: "page \<Rightarrow> page" where
  "showLoadingSpinner s = s\<lparr>dropZone := dropZone s @ [Spinner]\<rparr>"

text \<open>
  \<open>getElementById('loadingSpinner')\<close> finds the first element of that id in the order of
  the document, if there is one: a spinner, or an element inside the badge, whichever
  comes first. \<open>remove()\<close> takes that element out.
\<close>

fun remove_loadingSpinner :: "dz_child list \<Rightarrow> dz_child list" where
  "remove_loadingSpinner [] = []"
| "remove_loadingSpinner (Spinner # xs) = xs"
| "remove_loadingSpinner (FileInfo n k # xs) =
     (if 0 < k then FileInfo n (k - 1) # xs else FileInfo n k # remove_loadingSpinner xs)"

definition hideLoadingSpinner :: "page \<Rightarrow> page" where
  "hideLoadingSpinner s = s\<lparr>dropZone := remove_loadingSpinner (dropZone s)\<rparr>"

text \<open>\<open>dropZone.querySelector('.file-info')\<close> followed by \<open>remove()\<close> on what it finds.\<close>

fun remove_file_info :: "dz_child list \<Rightarrow> dz_child list" where
  "remove_file_info [] = []"
| "remove_file_info (FileInfo n k # xs) = xs"
| "remove_file_info (x # xs) = x # remove_file_info xs"

subsection \<open>Upload\<close>

text \<open>
  \<open>handleUploadSuccess\<close>. Reading \<open>data.stats.rows\<close> throws when \<open>data.stats\<close> is
  \<open>undefined\<close> or \<open>null\<close>, after the statistics section has been unhidden. When the parsed
  badge has no element of class \<open>delete-file\<close>, \<open>querySelector\<close> gives \<open>null\<close> and the
  call of \<open>addEventListener\<close> on it throws, after the badge has been appended and before
  the success notification. The second component is the message of what was thrown.
\<close>

definition handleUploadSuccess ::
  "env \<Rightarrow> upload_data \<Rightarrow> string \<Rightarrow> page \<Rightarrow> page \<times> string option" where
  "handleUploadSuccess e d fileName s =
     (let s1 = s\<lparr>stats_hidden := False\<rparr>
      in case u_stats d of
           NoStats v \<Rightarrow> (s1, Some (type_error_message e v ''rows''))
         | Stats rows columns \<Rightarrow>
             let s2 = s1\<lparr>rowCount := rows, colCount := columns,
                         previewContent := u_preview d,
                         queryInput_disabled := False,
                         queryBtn_disabled := False,
                         clearChat_disabled := False\<rparr>;
                 fileInfo = FileInfo fileName (badge_spinner_ids e fileName);
                 s3 = s2\<lparr>dropZone := remove_file_info (dropZone s2) @ [fileInfo]\<rparr>
             in if \<not> badge_has_delete e fileName
                then (s3, Some (type_error_message e Null ''addEventListener''))
                else (showNotification ''File uploaded successfully!'' ''success'' s3, None))"

text \<open>
  The markup \<open>deleteFile\<close> puts back into the transcript: one element of class
  \<open>welcome-message\<close>, here with its inner markup (white space between tags and the emoji
  after the heading, which is not ASCII, are left out).
\<close>

definition welcome_markup :: string where
  "welcome_markup =
     ''<h4>Welcome!</h4>'' @
     ''<p>Upload a CSV file to start analyzing your data. I can help you:</p>'' @
     ''<ul><li>Analyze trends and patterns</li><li>Calculate statistics</li>'' @
     ''<li>Generate insights</li><li>Answer questions about your data</li></ul>''"

definition deleteFile :: "page \<Rightarrow> page" where
  "deleteFile s =
     (let s1 = s\<lparr>stats_hidden := True,
                 queryInput_disabled := True,
                 queryBtn_disabled := True,
                 clearChat_disabled := True,
                 csvFile_value := [],
                 currentFile := None\<rparr>;
          s2 = s1\<lparr>dropZone := remove_file_info (dropZone s1)\<rparr>;
          s3 = s2\<lparr>chatMessages := [\<lparr>nid = next_id s2, className = ''welcome-message'',
                                      body = Html welcome_markup\<rparr>],
                   next_id := Suc (next_id s2)\<rparr>
      in showNotification ''File deleted successfully'' ''success'' s3)"

text \<open>
  \<open>handleFile\<close> up to the call of \<open>fetch\<close>; \<open>None\<close> is the \<open>undefined\<close> that \<open>files[0]\<close>
  gives when nothing was dropped or chosen.
\<close>

definition handleFile :: "file_obj option \<Rightarrow> page \<Rightarrow> page" where
  "handleFile fo s =
     (case fo of
        None \<Rightarrow> showNotification ''Please select a CSV file'' ''error'' s
      | Some f \<Rightarrow>
          if \<not> endsWith (name f) ''.csv''
          then showNotification ''Please select a CSV file'' ''error'' s
          else let s1 = showLoadingSpinner s;
                   s2 = s1\<lparr>currentFile := Some f\<rparr>
               in s2\<lparr>requests := requests s2 @ [Upload f]\<rparr>)"

text \<open>The second \<open>then\<close> of the upload, the \<open>catch\<close>, and the two put together.\<close>

definition upload_then ::
  "env \<Rightarrow> file_obj \<Rightarrow> upload_data option \<Rightarrow> page \<Rightarrow> page \<times> string option" where
  "upload_then e f d s =
     (let s1 = hideLoadingSpinner s
      in case d of
           None \<Rightarrow> (s1, Some (type_error_message e Null ''error''))
         | Some dat \<Rightarrow>
             if truthy (u_error dat) then (s1, Some (to_string (u_error dat)))
             else handleUploadSuccess e dat (name f) s1)"

definition upload_catch :: "string \<Rightarrow> page \<Rightarrow> page" where
  "upload_catch msg s = showNotification msg ''error'' (hideLoadingSpinner s)"

definition upload_settle :: "env \<Rightarrow> file_obj \<Rightarrow> upload_data settled \<Rightarrow> page \<Rightarrow> page" where
  "upload_settle e f outcome s =
     (case outcome of
        Rejected msg \<Rightarrow> upload_catch msg s
      | Resolved d \<Rightarrow>
          (case upload_then e f d s of
             (s1, None) \<Rightarrow> s1
           | (s1, Some msg) \<Rightarrow> upload_catch msg s1))"

subsection \<open>Chat\<close>

text \<open>
  \<open>addMessage\<close>: the element is appended only when \<open>md.render\<close> has returned. Every type
  other than \<open>assistant\<close> takes the text branch.
\<close>

definition addMessage :: "env \<Rightarrow> jsval \<Rightarrow> string \<Rightarrow> page \<Rightarrow> page \<times> string option" where
  "addMessage e c type s =
     (let cls = ''message '' @ type @ ''-message''
      in if type = ''assistant''
         then (case md_render e c of
                 Inl msg \<Rightarrow> (s, Some msg)
               | Inr html \<Rightarrow>
                   (s\<lparr>chatMessages := chatMessages s @
                         [\<lparr>nid = next_id s, className = cls, body = Html html\<rparr>],
                      next_id := Suc (next_id s)\<rparr>, None))
         else (s\<lparr>chatMessages := chatMessages s @
                     [\<lparr>nid = next_id s, className = cls, body = Text c\<rparr>],
                  next_id := Suc (next_id s)\<rparr>, None))"

text \<open>\<open>addTypingIndicator\<close> returns the element it appended, here its identity.\<close>

definition addTypingIndicator :: "page \<Rightarrow> page \<times> nat" where
  "addTypingIndicator s =
     (s\<lparr>chatMessages := chatMessages s @
           [\<lparr>nid = next_id s, className = ''message assistant-message typing-indicator'',
             body = Html ''<span></span><span></span><span></span>''\<rparr>],
        next_id := Suc (next_id s)\<rparr>, next_id s)"

text \<open>\<open>element.remove()\<close>: detaches the element if it is still in the transcript.\<close>

definition remove_node :: "nat \<Rightarrow> page \<Rightarrow> page" where
  "remove_node i s = s\<lparr>chatMessages := filter (\<lambda>n. nid n \<noteq> i) (chatMessages s)\<rparr>"

text \<open>
  \<open>sendQuery\<close> up to the call of \<open>fetch\<close>; the second component is the typing indicator
  the handlers of the request hold, when a request was made.
\<close>

definition sendQuery :: "env \<Rightarrow> page \<Rightarrow> page \<times> nat option" where
  "sendQuery e s =
     (let query = trim (queryInput_value s)
      in if query = [] then (s, None)
         else let s1 = fst (addMessage e (Str query) ''user'' s);
                  s2 = s1\<lparr>queryInput_value := []\<rparr>;
                  (s3, typingIndicator) = addTypingIndicator s2
              in (s3\<lparr>requests := requests s3 @ [Query query]\<rparr>, Some typingIndicator))"

definition query_then ::
  "env \<Rightarrow> nat \<Rightarrow> query_data option \<Rightarrow> page \<Rightarrow> page \<times> string option" where
  "query_then e typingIndicator d s =
     (let s1 = remove_node typingIndicator s
      in case d of
           None \<Rightarrow> (s1, Some (type_error_message e Null ''error''))
         | Some dat \<Rightarrow>
             if truthy (q_error dat) then (s1, Some (to_string (q_error dat)))
             else addMessage e (q_response dat) ''assistant'' s1)"

definition query_catch :: "nat \<Rightarrow> string \<Rightarrow> page \<Rightarrow> page" where
  "query_catch typingIndicator msg s =
     showNotification msg ''error'' (remove_node typingIndicator s)"

definition query_settle :: "env \<Rightarrow> nat \<Rightarrow> query_data settled \<Rightarrow> page \<Rightarrow> page" where
  "query_settle e typingIndicator outcome s =
     (case outcome of
        Rejected msg \<Rightarrow> query_catch typingIndicator msg s
      | Resolved d \<Rightarrow>
          (case query_then e typingIndicator d s of
             (s1, None) \<Rightarrow> s1
           | (s1, Some msg) \<Rightarrow> query_catch typingIndicator msg s1))"

text \<open>The click listener of the clear button.\<close>

definition clearChat_click :: "page \<Rightarrow> page" where
  "clearChat_click s = s\<lparr>chatMessages := []\<rparr>"

subsection \<open>Concrete values\<close>

text \<open>
  A page with nothing uploaded (statistics hidden, chat controls disabled, empty
  transcript) and an environment to evaluate the handlers on: its renderer wraps a string
  in a paragraph and throws on anything else, and its parser finds one element of id
  \<open>loadingSpinner\<close> in the badge of a name that begins with the tag
  \<open><img id=loadingSpinner>\<close>, none in any other, and the delete button in every badge.
\<close>

definition blank_page :: page where
  "blank_page =
     \<lparr>dropZone = [], currentFile = None, csvFile_value = [], stats_hidden = True,
      rowCount = Str [], colCount = Str [], previewContent = Str [],
      queryInput_disabled = True, queryBtn_disabled = True, clearChat_disabled = True,
      queryInput_value = [], chatMessages = [], next_id = 0,
      notifications = [], requests = []\<rparr>"

definition paragraph_env :: env where
  "paragraph_env =
     \<lparr>md_render = (\<lambda>v. case v of Str s \<Rightarrow> Inr (''<p>'' @ s @ ''</p>'')
                              | _ \<Rightarrow> Inl ''Input data should be a String''),
      type_error_message = (\<lambda>v p. ''Cannot read properties of '' @ to_string v),
      badge_spinner_ids = (\<lambda>n. if prefix ''<img id=loadingSpinner>'' n then 1 else 0),
      badge_has_delete = (\<lambda>n. True)\<rparr>"

section \<open>Facts about strings\<close>

lemma endsWith_iff_suffix: "endsWith s t \<longleftrightarrow> suffix t s"
proof
  assume "endsWith s t"
  then have "s = take (length s - length t) s @ t"
    by (metis endsWith_def append_take_drop_id)
  then show "suffix t s" by (metis suffixI)
next
  assume "suffix t s"
  then obtain zs where "s = zs @ t" by (auto simp: suffix_def)
  then show "endsWith s t" by (simp add: endsWith_def)
qed

lemma endsWith_last:
  assumes "endsWith s t" "t \<noteq> []"
  shows "last s = last t"
proof -
  from assms(1) obtain zs where "s = zs @ t"
    by (auto simp: endsWith_iff_suffix suffix_def)
  with assms(2) show ?thesis by simp
qed

section \<open>Properties of the log queue\<close>

lemma logQueue_addLogEntry:
  "logQueue (addLogEntry e d) =
     (if length (logQueue d) \<ge> maxLogEntries d then butlast (e # logQueue d)
      else e # logQueue d)"
  by (auto simp: addLogEntry_def Let_def split: option.splits)

lemma addLogEntry_fields:
  "enabled (addLogEntry e d) = enabled d"
  "maxLogEntries (addLogEntry e d) = maxLogEntries d"
  by (auto simp: addLogEntry_def Let_def split: option.splits)

lemma recentLogs_addLogEntry:
  "recentLogs (addLogEntry e d) =
     (case recentLogs d of None \<Rightarrow> None | Some _ \<Rightarrow> Some (logQueue (addLogEntry e d)))"
  by (auto simp: addLogEntry_def Let_def formatLogEntries_def split: option.splits)

lemma logQueue_addLogEntry_take:
  assumes "length (logQueue d) \<le> maxLogEntries d"
  shows "logQueue (addLogEntry e d) = take (maxLogEntries d) (e # logQueue d)"
proof (cases "length (logQueue d) = maxLogEntries d")
  case True
  then have "butlast (e # logQueue d) = take (maxLogEntries d) (e # logQueue d)"
    by (simp add: butlast_conv_take)
  with True show ?thesis by (simp add: logQueue_addLogEntry)
next
  case False
  with assms have "length (logQueue d) < maxLogEntries d" by simp
  then show ?thesis by (simp add: logQueue_addLogEntry)
qed

lemma do_call_entry:
  "enabled d \<Longrightarrow> do_call c d = addLogEntry (entry_of c) d"
  by (cases c) (simp_all add: debug_log_def debug_error_def debug_warn_def)

lemma do_calls_invariant:
  assumes "enabled d" "length (logQueue d) \<le> maxLogEntries d"
  shows "enabled (do_calls cs d) \<and> maxLogEntries (do_calls cs d) = maxLogEntries d
         \<and> logQueue (do_calls cs d)
             = take (maxLogEntries d) (rev (map entry_of cs) @ logQueue d)"
  using assms
proof (induction cs arbitrary: d)
  case Nil
  then show ?case by simp
next
  case (Cons c cs)
  let ?d1 = "addLogEntry (entry_of c) d"
  have step: "do_call c d = ?d1" using Cons.prems(1) by (rule do_call_entry)
  have q1: "logQueue ?d1 = take (maxLogEntries d) (entry_of c # logQueue d)"
    using Cons.prems(2) by (rule logQueue_addLogEntry_take)
  have en: "enabled ?d1" and mx: "maxLogEntries ?d1 = maxLogEntries d"
    using Cons.prems(1) by (simp_all add: addLogEntry_fields)
  have len: "length (logQueue ?d1) \<le> maxLogEntries ?d1"
    by (simp add: q1 mx)
  have ih: "enabled (do_calls cs ?d1) \<and> maxLogEntries (do_calls cs ?d1) = maxLogEntries ?d1
         \<and> logQueue (do_calls cs ?d1)
             = take (maxLogEntries ?d1) (rev (map entry_of cs) @ logQueue ?d1)"
    using Cons.IH [OF en len] .
  have "take (maxLogEntries d) (rev (map entry_of cs) @ take (maxLogEntries d) (entry_of c # logQueue d))
        = take (maxLogEntries d) (rev (map entry_of cs) @ entry_of c # logQueue d)"
    by (simp add: take_add min_def)
  with ih show ?case by (simp add: step q1 mx)
qed

lemma do_calls_recentLogs:
  assumes "enabled d" "recentLogs d = Some shown_before" "cs \<noteq> []"
  shows "recentLogs (do_calls cs d) = Some (logQueue (do_calls cs d))"
  using assms
proof (induction cs arbitrary: d shown_before)
  case Nil
  then show ?case by simp
next
  case (Cons c cs)
  let ?d1 = "addLogEntry (entry_of c) d"
  have step: "do_call c d = ?d1" using Cons.prems(1) by (rule do_call_entry)
  have en: "enabled ?d1" using Cons.prems(1) by (simp add: addLogEntry_fields)
  have r1: "recentLogs ?d1 = Some (logQueue ?d1)"
    using Cons.prems(2) by (simp add: recentLogs_addLogEntry)
  show ?case
  proof (cases cs)
    case Nil
    with r1 show ?thesis by (simp add: step)
  next
    case (Cons c' cs')
    then have "cs \<noteq> []" by simp
    from Cons.IH [OF en r1 this] show ?thesis by (simp add: step)
  qed
qed

text \<open>
  Claim C1. In a state of the debug object as the script creates it (logging enabled, at
  most 100 entries queued with the limit at 100), a call of \<open>log\<close>, \<open>error\<close> or \<open>warn\<close> puts
  its entry at the front of the queue and keeps the first 100 of the result, so a full
  queue loses exactly its last, oldest entry. After any sequence of calls the queue holds
  the entries of the latest calls, newest first, followed by what was queued before, cut
  at 100; after more than 100 calls it is exactly the entries of the 100 latest calls,
  newest first. Started from the empty queue the same holds for any number of calls, and
  the list drawn on the page, when the page has one, is the queue in that order.
\<close>

theorem log_queue_bounded_newest_first:
  assumes "enabled d" and "maxLogEntries d = 100" and "length (logQueue d) \<le> 100"
  shows "logQueue (do_call c d) = take 100 (entry_of c # logQueue d)
       \<and> hd (logQueue (do_call c d)) = entry_of c
       \<and> length (logQueue (do_call c d)) \<le> 100
       \<and> (length (logQueue d) = 100 \<longrightarrow>
            logQueue (do_call c d) = entry_of c # butlast (logQueue d))
       \<and> logQueue (do_calls cs d) = take 100 (rev (map entry_of cs) @ logQueue d)
       \<and> (length cs > 100 \<longrightarrow>
            logQueue (do_calls cs d) = take 100 (rev (map entry_of cs))
            \<and> length (logQueue (do_calls cs d)) = 100)
       \<and> logQueue (do_calls cs (debug_initial r)) = take 100 (rev (map entry_of cs))
       \<and> (cs \<noteq> [] \<and> r \<noteq> None \<longrightarrow>
            recentLogs (do_calls cs (debug_initial r)) = Some (take 100 (rev (map entry_of cs))))"
proof -
  have one: "logQueue (do_call c d) = take 100 (entry_of c # logQueue d)"
    using assms do_call_entry [of d c] logQueue_addLogEntry_take [of d "entry_of c"] by simp
  have full: "logQueue (do_call c d) = entry_of c # butlast (logQueue d)"
    if "length (logQueue d) = 100"
    using that one by (simp add: butlast_conv_take)
  have many: "logQueue (do_calls cs d) = take 100 (rev (map entry_of cs) @ logQueue d)"
    using do_calls_invariant [of d cs] assms by simp
  have over: "logQueue (do_calls cs d) = take 100 (rev (map entry_of cs))
              \<and> length (logQueue (do_calls cs d)) = 100"
    if "length cs > 100"
    using that many by simp
  have init: "enabled (debug_initial r)" "length (logQueue (debug_initial r)) \<le> maxLogEntries (debug_initial r)"
    "maxLogEntries (debug_initial r) = 100" "logQueue (debug_initial r) = []"
    "recentLogs (debug_initial r) = r"
    by (simp_all add: debug_initial_def)
  have fresh: "logQueue (do_calls cs (debug_initial r)) = take 100 (rev (map entry_of cs))"
    using do_calls_invariant [OF init(1,2), of cs] init(3,4) by simp
  have drawn: "recentLogs (do_calls cs (debug_initial r)) = Some (take 100 (rev (map entry_of cs)))"
    if "cs \<noteq> []" "r \<noteq> None"
  proof -
    from that(2) obtain es where "r = Some es" by auto
    with init(5) have "recentLogs (debug_initial r) = Some es" by simp
    from do_calls_recentLogs [OF init(1) this that(1)] fresh show ?thesis by simp
  qed
  from one have hd1: "hd (logQueue (do_call c d)) = entry_of c" by simp
  from one have len1: "length (logQueue (do_call c d)) \<le> 100" by simp
  show ?thesis
    using one hd1 len1 full many over fresh drawn by blast
qed

text \<open>
  The theorem at a full queue of 100 equal entries, one call of \<open>warn\<close> and 101 calls of
  \<open>log\<close>.
\<close>

theorem log_queue_bounded_newest_first_witness:
  "enabled ((debug_initial None)\<lparr>logQueue := replicate 100 (entry_of (CallError ''old'' Null ''t0''))\<rparr>)
   \<and> maxLogEntries ((debug_initial None)\<lparr>logQueue := replicate 100 (entry_of (CallError ''old'' Null ''t0''))\<rparr>) = 100
   \<and> length (logQueue ((debug_initial None)\<lparr>logQueue := replicate 100 (entry_of (CallError ''old'' Null ''t0''))\<rparr>)) = 100
   \<and> logQueue (do_call (CallWarn ''new'' Null ''t1'')
        ((debug_initial None)\<lparr>logQueue := replicate 100 (entry_of (CallError ''old'' Null ''t0''))\<rparr>))
      = entry_of (CallWarn ''new'' Null ''t1'') # replicate 99 (entry_of (CallError ''old'' Null ''t0''))
   \<and> logQueue (do_calls (replicate 101 (CallLog ''m'' Null ''t2''))
        ((debug_initial None)\<lparr>logQueue := replicate 100 (entry_of (CallError ''old'' Null ''t0''))\<rparr>))
      = replicate 100 (entry_of (CallLog ''m'' Null ''t2''))"
proof -
  let ?old = "entry_of (CallError ''old'' Null ''t0'')"
  let ?d = "(debug_initial None)\<lparr>logQueue := replicate 100 ?old\<rparr>"
  have h: "enabled ?d" "maxLogEntries ?d = 100" "length (logQueue ?d) \<le> 100"
    and l: "length (logQueue ?d) = 100"
    by (simp_all add: debug_initial_def)
  have q: "logQueue ?d = replicate 100 ?old" by simp
  note t = log_queue_bounded_newest_first [OF h, of "CallWarn ''new'' Null ''t1''"
      "replicate 101 (CallLog ''m'' Null ''t2'')" None]
  from t l have a: "logQueue (do_call (CallWarn ''new'' Null ''t1'') ?d)
      = entry_of (CallWarn ''new'' Null ''t1'') # butlast (logQueue ?d)"
    by blast
  have b: "butlast (replicate 100 ?old) = replicate 99 ?old"
    by (simp add: butlast_conv_take)
  from t have c: "logQueue (do_calls (replicate 101 (CallLog ''m'' Null ''t2'')) ?d)
      = take 100 (rev (map entry_of (replicate 101 (CallLog ''m'' Null ''t2''))))"
    by simp
  have e: "take 100 (rev (map entry_of (replicate 101 (CallLog ''m'' Null ''t2''))))
      = replicate 100 (entry_of (CallLog ''m'' Null ''t2''))"
    by simp
  show ?thesis
    using h(1,2) l a c unfolding q b e by blast
qed

section \<open>Properties of the byte formatter\<close>

text \<open>The floor of the base-1024 logarithm of a positive count, the finite part of the index.\<close>

lemma unit_index_pos: "0 < b \<Longrightarrow> unit_index b = Index \<lfloor>ln (real b) / ln 1024\<rfloor>"
  by (simp add: unit_index_def)

lemma floor_log_eq_iff:
  assumes "0 < b"
  shows "\<lfloor>ln (real b) / ln 1024\<rfloor> = int j \<longleftrightarrow> 1024 ^ j \<le> b \<and> b < 1024 ^ (j + 1)"
proof -
  have "\<lfloor>ln (real b) / ln 1024\<rfloor> = \<lfloor>log (real (1024::nat)) (real b)\<rfloor>"
    by (simp add: log_def)
  then show ?thesis
    using floor_log_nat_eq_powr_iff [of 1024 b j] assms by simp
qed

lemma floor_log_nonneg: "0 < b \<Longrightarrow> 0 \<le> \<lfloor>ln (real b) / ln 1024\<rfloor>"
  by simp

lemma unit_index_step:
  assumes "0 < b"
  obtains j where "unit_index b = Index (int j)" "1024 ^ j \<le> b" "b < 1024 ^ (j + 1)"
proof -
  let ?i = "\<lfloor>ln (real b) / ln 1024\<rfloor>"
  have "?i = int (nat ?i)"
    using floor_log_nonneg [OF assms] by simp
  moreover from this have "1024 ^ nat ?i \<le> b \<and> b < 1024 ^ (nat ?i + 1)"
    using floor_log_eq_iff [OF assms, of "nat ?i"] by simp
  ultimately show ?thesis
    using that [of "nat ?i"] unit_index_pos [OF assms] by simp
qed

lemma step_less_iff:
  assumes "1024 ^ j \<le> b" "b < 1024 ^ (j + 1)"
  shows "j < n \<longleftrightarrow> b < (1024::nat) ^ n"
proof
  assume "j < n"
  then have "j + 1 \<le> n" by simp
  then have "(1024::nat) ^ (j + 1) \<le> 1024 ^ n"
    by (intro power_increasing) simp_all
  with assms(2) show "b < 1024 ^ n" by simp
next
  assume "b < 1024 ^ n"
  with assms(1) have "(1024::nat) ^ j < 1024 ^ n"
    by (rule order.strict_trans1)
  then show "j < n"
    by (rule power_less_imp_less_exp [rotated]) simp
qed

lemma toFixed2_scaled:
  "toFixed2 (real b / 1024 powr real_of_int (int j)) = (200 * b + 1024 ^ j) div (2 * 1024 ^ j)"
proof -
  have p: "(1024::real) powr real_of_int (int j) = 1024 ^ j"
    by (simp add: powr_realpow)
  have "real b / 1024 ^ j * 100 + 1 / 2 = real (200 * b + 1024 ^ j) / real (2 * 1024 ^ j)"
    by (simp add: field_simps)
  then have "\<lfloor>real b / 1024 ^ j * 100 + 1 / 2\<rfloor> = int ((200 * b + 1024 ^ j) div (2 * 1024 ^ j))"
    by (simp only: floor_divide_of_nat_eq)
  then have "nat \<lfloor>real b / 1024 ^ j * 100 + 1 / 2\<rfloor> = (200 * b + 1024 ^ j) div (2 * 1024 ^ j)"
    by (simp only: nat_int)
  then show ?thesis
    unfolding toFixed2_def p .
qed

text \<open>The number printed is within half a hundredth of the scaled byte count.\<close>

lemma toFixed2_near:
  assumes "0 \<le> x"
  shows "\<bar>real (toFixed2 x) / 100 - x\<bar> \<le> 1 / 200"
proof -
  let ?n = "\<lfloor>x * 100 + 1 / 2\<rfloor>"
  have nn: "0 \<le> ?n" using assms by simp
  then have r: "real (toFixed2 x) = of_int ?n"
    by (simp add: toFixed2_def)
  have "of_int ?n \<le> x * 100 + 1 / 2" and "x * 100 + 1 / 2 < of_int ?n + 1"
    by linarith+
  then have "of_int ?n / 100 - x \<le> 1 / 200" and "x - of_int ?n / 100 \<le> 1 / 200"
    by linarith+
  then show ?thesis unfolding r by (simp only: abs_le_iff minus_diff_eq)
qed

text \<open>The return expression evaluated for a finite index.\<close>

lemma format_with_Index:
  "format_with b (Index (int j)) =
     number_text ((200 * b + 1024 ^ j) div (2 * 1024 ^ j)) @ '' ''
       @ to_string (array_get sizes (Index (int j)))"
  by (simp add: format_with_def scaled_def fixed_text_def toFixed2_scaled
           del: of_int_of_nat_eq)

text \<open>The formatter evaluated on the scale step \<open>j\<close> the byte count lies in.\<close>

lemma formatBytes_at:
  assumes "1024 ^ j \<le> b" "b < 1024 ^ (j + 1)"
  shows "formatBytes b = number_text ((200 * b + 1024 ^ j) div (2 * 1024 ^ j)) @ '' ''
            @ to_string (array_get sizes (Index (int j)))"
proof -
  have "(0::nat) < 1024 ^ j" by simp
  with assms(1) have pos: "0 < b" by linarith
  with assms have "unit_index b = Index (int j)"
    by (simp add: unit_index_pos floor_log_eq_iff)
  with pos show ?thesis
    by (simp add: formatBytes_def format_scaled_def format_with_Index del: of_int_of_nat_eq)
qed

lemma array_get_sizes:
  "j < 4 \<Longrightarrow> array_get sizes (Index (int j)) = Str (sizes ! j) \<and> sizes ! j \<in> set sizes"
  "4 \<le> j \<Longrightarrow> array_get sizes (Index (int j)) = Undefined"
proof -
  show "array_get sizes (Index (int j)) = Str (sizes ! j) \<and> sizes ! j \<in> set sizes"
    if "j < 4"
  proof -
    from that have "j < length sizes" by (simp add: sizes_def)
    then have "sizes ! j \<in> set sizes" by (rule nth_mem)
    with that show ?thesis by (simp add: array_get_def sizes_def)
  qed
  show "array_get sizes (Index (int j)) = Undefined" if "4 \<le> j"
    using that by (simp add: array_get_def sizes_def)
qed

text \<open>What the statements after the test for zero give at zero.\<close>

lemma format_scaled_zero: "format_scaled 0 = ''NaN undefined''"
  by (simp add: format_scaled_def unit_index_def format_with_def scaled_def fixed_text_def
                array_get_def)

text \<open>
  Claim C2 as stated fails from \<open>1024^4\<close> bytes on: the index computed is then 4 or more,
  the table of units has no entry there, and what is printed after the number is
  \<open>undefined\<close>, none of Bytes, KB, MB and GB.
\<close>

theorem formatBytes_tebibyte: "formatBytes 1099511627776 = ''1 undefined''"
  using formatBytes_at [of 4 1099511627776]
  by (simp add: number_text_def digit_char_def sizes_def array_get_def)

text \<open>
  Claim C2, amended to byte counts below \<open>1024^4\<close>. Zero is special-cased: it gives
  \<open>0 Bytes\<close>, where the statements after the test would give \<open>NaN undefined\<close>. The formatter
  gives \<open>1 KB\<close> for 1024, \<open>1.5 KB\<close> for 1536, \<open>1 MB\<close> for 1048576, and \<open>117.74 MB\<close> for
  123456789. For every positive byte count below \<open>1024^4\<close> it picks the step \<open>j\<close> of the
  base-1024 scale the count lies in, rounds the count divided by \<open>1024^j\<close> to the nearest
  number \<open>h\<close> of hundredths (half a hundredth goes up), and prints the whole part of it,
  then, unless both are zero, a point and the two decimals, the second only when it is
  not zero, then a space and the \<open>j\<close>-th of the units Bytes, KB, MB, GB.
\<close>

theorem formatBytes_scale:
  "formatBytes 0 = ''0 Bytes''
   \<and> format_scaled 0 = ''NaN undefined''
   \<and> formatBytes 1024 = ''1 KB''
   \<and> formatBytes 1536 = ''1.5 KB''
   \<and> formatBytes 1048576 = ''1 MB''
   \<and> formatBytes 123456789 = ''117.74 MB''
   \<and> (0 < b \<and> b < 1024 ^ 4 \<longrightarrow>
        (\<exists>j h. j < 4 \<and> 1024 ^ j \<le> b \<and> b < 1024 ^ (j + 1)
           \<and> h = (200 * b + 1024 ^ j) div (2 * 1024 ^ j)
           \<and> \<bar>real h / 100 - real b / 1024 ^ j\<bar> \<le> 1 / 200
           \<and> formatBytes b =
                show_nat (h div 100)
                @ (if h mod 100 = 0 then []
                   else ''.'' @ [digit_char (h mod 100 div 10)]
                        @ (if h mod 10 = 0 then [] else [digit_char (h mod 10)]))
                @ '' '' @ sizes ! j))"
proof -
  have z: "formatBytes 0 = ''0 Bytes''"
    by (simp add: formatBytes_def)
  have k: "formatBytes 1024 = ''1 KB''"
    using formatBytes_at [of 1 1024]
    by (simp add: number_text_def digit_char_def sizes_def array_get_def)
  have h: "formatBytes 1536 = ''1.5 KB''"
    using formatBytes_at [of 1 1536]
    by (simp add: number_text_def digit_char_def sizes_def array_get_def)
  have m: "formatBytes 1048576 = ''1 MB''"
    using formatBytes_at [of 2 1048576]
    by (simp add: number_text_def digit_char_def sizes_def array_get_def)
  have d: "formatBytes 123456789 = ''117.74 MB''"
    using formatBytes_at [of 2 123456789]
    by (simp add: number_text_def digit_char_def sizes_def array_get_def)
  have g: "\<exists>j h. j < 4 \<and> 1024 ^ j \<le> b \<and> b < 1024 ^ (j + 1)
           \<and> h = (200 * b + 1024 ^ j) div (2 * 1024 ^ j)
           \<and> \<bar>real h / 100 - real b / 1024 ^ j\<bar> \<le> 1 / 200
           \<and> formatBytes b =
                show_nat (h div 100)
                @ (if h mod 100 = 0 then []
                   else ''.'' @ [digit_char (h mod 100 div 10)]
                        @ (if h mod 10 = 0 then [] else [digit_char (h mod 10)]))
                @ '' '' @ sizes ! j"
    if pos: "0 < b" and small: "b < 1024 ^ 4"
  proof -
    from unit_index_step [OF pos] obtain j
      where j: "unit_index b = Index (int j)" "1024 ^ j \<le> b" "b < 1024 ^ (j + 1)"
      by blast
    let ?h = "(200 * b + 1024 ^ j) div (2 * 1024 ^ j)"
    have j4: "j < 4" using step_less_iff [OF j(2,3), of 4] small by simp
    have "\<bar>real (toFixed2 (real b / 1024 ^ j)) / 100 - real b / 1024 ^ j\<bar> \<le> 1 / 200"
      by (rule toFixed2_near) simp
    moreover have "toFixed2 (real b / 1024 ^ j) = ?h"
      using toFixed2_scaled [of b j] by (simp add: powr_realpow)
    ultimately have near: "\<bar>real ?h / 100 - real b / 1024 ^ j\<bar> \<le> 1 / 200"
      by simp
    have m10: "?h mod 100 mod 10 = ?h mod 10"
      by (simp add: mod_mod_cancel)
    have "formatBytes b = number_text ?h @ '' '' @ sizes ! j"
      using formatBytes_at [OF j(2,3)] array_get_sizes(1) [OF j4] by simp
    then have "formatBytes b =
                show_nat (?h div 100)
                @ (if ?h mod 100 = 0 then []
                   else ''.'' @ [digit_char (?h mod 100 div 10)]
                        @ (if ?h mod 10 = 0 then [] else [digit_char (?h mod 10)]))
                @ '' '' @ sizes ! j"
      by (simp add: number_text_def Let_def m10)
    with j4 j(2,3) near show ?thesis by blast
  qed
  from z format_scaled_zero k h m d g show ?thesis by blast
qed

text \<open>The general part of the theorem at 123456789 bytes.\<close>

theorem formatBytes_scale_witness:
  "(0::nat) < 123456789 \<and> (123456789::nat) < 1024 ^ 4
   \<and> (\<exists>j h. j < 4 \<and> 1024 ^ j \<le> (123456789::nat) \<and> (123456789::nat) < 1024 ^ (j + 1)
          \<and> h = (200 * 123456789 + 1024 ^ j) div (2 * 1024 ^ j)
          \<and> \<bar>real h / 100 - real (123456789::nat) / 1024 ^ j\<bar> \<le> 1 / 200
          \<and> formatBytes 123456789 =
                show_nat (h div 100)
                @ (if h mod 100 = 0 then []
                   else ''.'' @ [digit_char (h mod 100 div 10)]
                        @ (if h mod 10 = 0 then [] else [digit_char (h mod 10)]))
                @ '' '' @ sizes ! j)"
proof -
  have a: "(0::nat) < 123456789" and b: "(123456789::nat) < 1024 ^ 4" by simp_all
  from formatBytes_scale [of 123456789] a b show ?thesis by blast
qed

text \<open>
  Claim C10. A byte count of \<open>1024^4\<close> or more gets a unit index of at least 4, where the
  table of four units has no entry: the text printed after the number is \<open>undefined\<close> and
  none of the four units. A byte count below \<open>1024^4\<close> is printed with one of the four
  units. The test for zero is what keeps zero from the logarithm: the logarithm of zero
  gives the index \<open>-Infinity\<close>, with which the statements after the test would print
  \<open>NaN undefined\<close>, and the formatter gives \<open>0 Bytes\<close> instead. Every other count is printed
  by the return expression with a finite index, and up to \<open>1024^4\<close> with the index of the
  scale step it lies in.
\<close>

theorem formatBytes_unit_range:
  "(1024 ^ 4 \<le> b \<longrightarrow>
       (\<exists>i. unit_index b = Index i \<and> 4 \<le> i)
     \<and> array_get sizes (unit_index b) = Undefined
     \<and> endsWith (formatBytes b) '' undefined''
     \<and> \<not> (\<exists>u \<in> set sizes. endsWith (formatBytes b) ('' '' @ u)))
   \<and> (b < 1024 ^ 4 \<longrightarrow> (\<exists>u \<in> set sizes. endsWith (formatBytes b) ('' '' @ u)))
   \<and> unit_index 0 = NegInfinity
   \<and> format_scaled 0 = ''NaN undefined''
   \<and> formatBytes 0 = ''0 Bytes''
   \<and> (b \<noteq> 0 \<longrightarrow> (\<exists>i. formatBytes b = format_with b (Index i)))
   \<and> (b \<noteq> 0 \<and> b < 1024 ^ 4 \<longrightarrow>
        (\<exists>j < 4. 1024 ^ j \<le> b \<and> b < 1024 ^ (j + 1)
           \<and> formatBytes b = format_with b (Index (int j))))"
proof -
  have fin: "\<exists>j. unit_index b = Index (int j) \<and> 1024 ^ j \<le> b \<and> b < 1024 ^ (j + 1)
           \<and> formatBytes b = format_with b (Index (int j))"
    if "b \<noteq> 0"
  proof -
    from that have pos: "0 < b" by simp
    from unit_index_step [OF pos] obtain j
      where j: "unit_index b = Index (int j)" "1024 ^ j \<le> b" "b < 1024 ^ (j + 1)"
      by blast
    from that j(1) have "formatBytes b = format_with b (Index (int j))"
      by (simp add: formatBytes_def format_scaled_def)
    with j show ?thesis by blast
  qed
  have big: "(\<exists>i. unit_index b = Index i \<and> 4 \<le> i)
     \<and> array_get sizes (unit_index b) = Undefined
     \<and> endsWith (formatBytes b) '' undefined''
     \<and> \<not> (\<exists>u \<in> set sizes. endsWith (formatBytes b) ('' '' @ u))"
    if "1024 ^ 4 \<le> b"
  proof -
    from that have "b \<noteq> 0" by simp
    from fin [OF this] obtain j
      where j: "unit_index b = Index (int j)" "1024 ^ j \<le> b" "b < 1024 ^ (j + 1)"
        "formatBytes b = format_with b (Index (int j))"
      by blast
    have "\<not> j < 4" using step_less_iff [OF j(2,3), of 4] that by simp
    then have j4: "4 \<le> j" by simp
    then have u: "array_get sizes (Index (int j)) = Undefined"
      by (rule array_get_sizes(2))
    from j(4) have f: "formatBytes b
        = number_text ((200 * b + 1024 ^ j) div (2 * 1024 ^ j)) @ '' undefined''"
      by (simp add: format_with_Index u del: of_int_of_nat_eq)
    then have e: "endsWith (formatBytes b) '' undefined''"
      by (simp add: endsWith_iff_suffix suffix_def)
    have l: "last (formatBytes b) = CHR ''d''"
      using endsWith_last [OF e] by simp
    have "\<not> endsWith (formatBytes b) ('' '' @ u)" if "u \<in> set sizes" for u
    proof
      assume "endsWith (formatBytes b) ('' '' @ u)"
      then have "last (formatBytes b) = last ('' '' @ u)"
        by (rule endsWith_last) simp
      with l that show False by (auto simp: sizes_def)
    qed
    moreover from j4 have "(4::int) \<le> int j" by simp
    ultimately show ?thesis using j(1) u e by auto
  qed
  have small: "\<exists>u \<in> set sizes. endsWith (formatBytes b) ('' '' @ u)" if "b < 1024 ^ 4"
  proof (cases "b = 0")
    case True
    have "''Bytes'' \<in> set sizes" by (simp add: sizes_def)
    moreover have "endsWith (formatBytes 0) ('' '' @ ''Bytes'')"
      by (simp add: formatBytes_def endsWith_def)
    ultimately show ?thesis using True by blast
  next
    case False
    from fin [OF this] obtain j
      where j: "unit_index b = Index (int j)" "1024 ^ j \<le> b" "b < 1024 ^ (j + 1)"
        "formatBytes b = format_with b (Index (int j))"
      by blast
    have j4: "j < 4" using step_less_iff [OF j(2,3), of 4] that by simp
    from j(4) array_get_sizes(1) [OF j4]
    have "formatBytes b = number_text ((200 * b + 1024 ^ j) div (2 * 1024 ^ j))
            @ ('' '' @ sizes ! j)"
      and "sizes ! j \<in> set sizes"
      by (simp_all add: format_with_Index del: of_int_of_nat_eq)
    then show ?thesis
      by (metis endsWith_iff_suffix suffixI)
  qed
  have step: "\<exists>j < 4. 1024 ^ j \<le> b \<and> b < 1024 ^ (j + 1)
           \<and> formatBytes b = format_with b (Index (int j))"
    if "b \<noteq> 0 \<and> b < 1024 ^ 4"
  proof -
    from that fin obtain j
      where j: "1024 ^ j \<le> b" "b < 1024 ^ (j + 1)"
        "formatBytes b = format_with b (Index (int j))"
      by blast
    have "j < 4" using step_less_iff [OF j(1,2), of 4] that by simp
    with j show ?thesis by blast
  qed
  have zero: "unit_index 0 = NegInfinity" "formatBytes 0 = ''0 Bytes''"
    by (simp_all add: unit_index_def formatBytes_def)
  from fin have any: "\<exists>i. formatBytes b = format_with b (Index i)" if "b \<noteq> 0"
    using that by blast
  from big small zero format_scaled_zero any step show ?thesis by blast
qed

text \<open>The theorem at \<open>1024^4\<close> bytes, the first count without a unit, and at 1536 bytes.\<close>

theorem formatBytes_unit_range_witness:
  "(1024::nat) ^ 4 \<le> 1099511627776
   \<and> (\<exists>i. unit_index 1099511627776 = Index i \<and> 4 \<le> i)
   \<and> array_get sizes (unit_index 1099511627776) = Undefined
   \<and> endsWith (formatBytes 1099511627776) '' undefined''
   \<and> \<not> (\<exists>u \<in> set sizes. endsWith (formatBytes 1099511627776) ('' '' @ u))
   \<and> (1536::nat) \<noteq> 0 \<and> (1536::nat) < 1024 ^ 4
   \<and> (\<exists>u \<in> set sizes. endsWith (formatBytes 1536) ('' '' @ u))
   \<and> (\<exists>j < 4. 1024 ^ j \<le> (1536::nat) \<and> (1536::nat) < 1024 ^ (j + 1)
         \<and> formatBytes 1536 = format_with 1536 (Index (int j)))"
proof -
  have a: "(1024::nat) ^ 4 \<le> 1099511627776"
    and c: "(1536::nat) \<noteq> 0" and d: "(1536::nat) < 1024 ^ 4"
    by simp_all
  from formatBytes_unit_range [of 1099511627776] a
  have big: "(\<exists>i. unit_index 1099511627776 = Index i \<and> 4 \<le> i)
   \<and> array_get sizes (unit_index 1099511627776) = Undefined
   \<and> endsWith (formatBytes 1099511627776) '' undefined''
   \<and> \<not> (\<exists>u \<in> set sizes. endsWith (formatBytes 1099511627776) ('' '' @ u))"
    by blast
  from formatBytes_unit_range [of 1536] c d
  have small: "(\<exists>u \<in> set sizes. endsWith (formatBytes 1536) ('' '' @ u))
   \<and> (\<exists>j < 4. 1024 ^ j \<le> (1536::nat) \<and> (1536::nat) < 1024 ^ (j + 1)
         \<and> formatBytes 1536 = format_with 1536 (Index (int j)))"
    by blast
  from a c d big small show ?thesis by blast
qed

section \<open>Properties of the debug panel\<close>

lemma panel_step_fetches:
  "status_fetches (panel_step ev p)
     = status_fetches p + (if wired p \<and> shown (panel_step ev p) then 1 else 0)"
  by (cases ev)
     (simp_all add: on_toggle_click_def on_interval_tick_def updateSystemStatus_def Let_def)

lemma panel_tick_hidden: "\<not> shown p \<Longrightarrow> panel_step IntervalTick p = p"
  by (simp add: on_interval_tick_def)

lemma panel_run_hidden:
  "\<not> shown p \<Longrightarrow> ToggleClick \<notin> set evs \<Longrightarrow> panel_run evs p = p"
proof (induction evs)
  case Nil
  then show ?case by simp
next
  case (Cons ev evs)
  then have "ev = IntervalTick" by (cases ev) simp_all
  with Cons.prems(1) have "panel_step ev p = p" using panel_tick_hidden by blast
  with Cons show ?case by simp
qed

text \<open>
  Claim C3 as stated fails when the page is loaded: \<open>debug.init\<close> runs \<open>setupDebugPanel\<close>,
  which calls \<open>updateSystemStatus\<close> outside every visibility test. With a panel that is
  hidden at load, a status fetch is issued although the panel is not visible.
\<close>

theorem status_fetch_at_load_while_hidden:
  "\<not> (status_fetches (init_panel (debug_initial None)
           \<lparr>elements_present = True, shown = False, wired = False, status_fetches = 0\<rparr>)
        > status_fetches
           \<lparr>elements_present = True, shown = False, wired = False, status_fetches = 0\<rparr>
      \<longrightarrow> shown (init_panel (debug_initial None)
           \<lparr>elements_present = True, shown = False, wired = False, status_fetches = 0\<rparr>))"
  by (simp add: init_panel_def debug_initial_def setupDebugPanel_def updateSystemStatus_def)

text \<open>
  Claim C3, amended. The setup at page load issues one status fetch whether or not the
  panel is visible, registers the callbacks and leaves the visibility as it is. After
  that, a click on the toggle or a tick of the 5-second timer issues at most one fetch,
  and issues it exactly when the panel is visible after the event: the click that opens
  the panel fetches once at once, every tick while it is open fetches once, the click
  that closes it fetches nothing, and while it is closed no tick fetches anything, however
  many there are, until a click reopens it.
\<close>

theorem status_fetch_gating:
  "(elements_present p \<longrightarrow>
       status_fetches (setupDebugPanel p) = status_fetches p + 1
     \<and> wired (setupDebugPanel p)
     \<and> shown (setupDebugPanel p) = shown p)
   \<and> status_fetches (panel_step ev p)
       = status_fetches p + (if wired p \<and> shown (panel_step ev p) then 1 else 0)
   \<and> (status_fetches (panel_step ev p) > status_fetches p \<longrightarrow> shown (panel_step ev p))
   \<and> (wired p \<and> \<not> shown p \<longrightarrow>
        panel_step ToggleClick p = p\<lparr>shown := True, status_fetches := status_fetches p + 1\<rparr>)
   \<and> (wired p \<and> shown p \<longrightarrow>
        panel_step IntervalTick p = p\<lparr>status_fetches := status_fetches p + 1\<rparr>)
   \<and> (wired p \<and> shown p \<longrightarrow> panel_step ToggleClick p = p\<lparr>shown := False\<rparr>)
   \<and> (\<not> shown p \<and> ToggleClick \<notin> set evs \<longrightarrow> panel_run evs p = p)"
proof -
  have s0: "status_fetches (setupDebugPanel p) = status_fetches p + 1
     \<and> wired (setupDebugPanel p) \<and> shown (setupDebugPanel p) = shown p"
    if "elements_present p"
    using that by (simp add: setupDebugPanel_def updateSystemStatus_def)
  have cnt: "status_fetches (panel_step ev p)
       = status_fetches p + (if wired p \<and> shown (panel_step ev p) then 1 else 0)"
    by (rule panel_step_fetches)
  have vis: "shown (panel_step ev p)" if "status_fetches (panel_step ev p) > status_fetches p"
    using that cnt by (simp split: if_splits)
  have op: "panel_step ToggleClick p
       = p\<lparr>shown := True, status_fetches := status_fetches p + 1\<rparr>"
    if "wired p \<and> \<not> shown p"
    using that by (simp add: on_toggle_click_def updateSystemStatus_def Let_def)
  have tk: "panel_step IntervalTick p = p\<lparr>status_fetches := status_fetches p + 1\<rparr>"
    if "wired p \<and> shown p"
    using that by (simp add: on_interval_tick_def updateSystemStatus_def)
  have cl: "panel_step ToggleClick p = p\<lparr>shown := False\<rparr>"
    if "wired p \<and> shown p"
    using that by (simp add: on_toggle_click_def Let_def)
  have idle: "panel_run evs p = p" if "\<not> shown p \<and> ToggleClick \<notin> set evs"
    using that panel_run_hidden by blast
  from s0 cnt vis op tk cl idle show ?thesis by blast
qed

text \<open>
  The theorem on the panel as the setup leaves it when it was hidden at load: the click
  that opens it fetches, and after the click that closes it three ticks fetch nothing.
\<close>

theorem status_fetch_gating_witness:
  "elements_present \<lparr>elements_present = True, shown = False, wired = False, status_fetches = 0\<rparr>
   \<and> setupDebugPanel \<lparr>elements_present = True, shown = False, wired = False, status_fetches = 0\<rparr>
       = \<lparr>elements_present = True, shown = False, wired = True, status_fetches = 1\<rparr>
   \<and> wired \<lparr>elements_present = True, shown = False, wired = True, status_fetches = 1\<rparr>
   \<and> \<not> shown \<lparr>elements_present = True, shown = False, wired = True, status_fetches = 1\<rparr>
   \<and> panel_step ToggleClick \<lparr>elements_present = True, shown = False, wired = True, status_fetches = 1\<rparr>
       = \<lparr>elements_present = True, shown = True, wired = True, status_fetches = 2\<rparr>
   \<and> panel_step ToggleClick \<lparr>elements_present = True, shown = True, wired = True, status_fetches = 2\<rparr>
       = \<lparr>elements_present = True, shown = False, wired = True, status_fetches = 2\<rparr>
   \<and> ToggleClick \<notin> set [IntervalTick, IntervalTick, IntervalTick]
   \<and> panel_run [IntervalTick, IntervalTick, IntervalTick]
        \<lparr>elements_present = True, shown = False, wired = True, status_fetches = 2\<rparr>
       = \<lparr>elements_present = True, shown = False, wired = True, status_fetches = 2\<rparr>"
proof -
  let ?p0 = "\<lparr>elements_present = True, shown = False, wired = False, status_fetches = 0\<rparr>"
  let ?p1 = "\<lparr>elements_present = True, shown = False, wired = True, status_fetches = 1\<rparr>"
  let ?p2 = "\<lparr>elements_present = True, shown = True, wired = True, status_fetches = 2\<rparr>"
  let ?p3 = "\<lparr>elements_present = True, shown = False, wired = True, status_fetches = 2\<rparr>"
  have a: "elements_present ?p0" by simp
  have b: "setupDebugPanel ?p0 = ?p1"
    by (simp add: setupDebugPanel_def updateSystemStatus_def)
  have c: "wired ?p1 \<and> \<not> shown ?p1" by simp
  have d: "wired ?p2 \<and> shown ?p2" by simp
  have e: "\<not> shown ?p3 \<and> ToggleClick \<notin> set [IntervalTick, IntervalTick, IntervalTick]" by simp
  from status_fetch_gating [of ?p1 ToggleClick "[]"] c
  have f: "panel_step ToggleClick ?p1 = ?p2" by simp
  from status_fetch_gating [of ?p2 ToggleClick "[]"] d
  have g: "panel_step ToggleClick ?p2 = ?p3" by simp
  from status_fetch_gating [of ?p3 ToggleClick "[IntervalTick, IntervalTick, IntervalTick]"] e
  have h: "panel_run [IntervalTick, IntervalTick, IntervalTick] ?p3 = ?p3" by blast
  from a b c e f g h show ?thesis by blast
qed

section \<open>Properties of the upload and chat page\<close>

subsection \<open>Helper facts\<close>

lemma handleFile_accepted:
  assumes "endsWith (name f) ''.csv''"
  shows "dropZone (handleFile (Some f) s) = dropZone s @ [Spinner]"
    and "requests (handleFile (Some f) s) = requests s @ [Upload f]"
  using assms by (simp_all add: handleFile_def showLoadingSpinner_def Let_def)

lemma upload_settle_rejected:
  "dropZone (upload_settle e f (Rejected msg) s) = remove_loadingSpinner (dropZone s)"
  "requests (upload_settle e f (Rejected msg) s) = requests s"
  by (simp_all add: upload_settle_def upload_catch_def hideLoadingSpinner_def
        showNotification_def)

lemma upload_settle_success:
  assumes "\<not> truthy (u_error d)" "u_stats d = Stats rows columns" "badge_has_delete e (name f)"
  shows "dropZone (upload_settle e f (Resolved (Some d)) s)
           = remove_file_info (remove_loadingSpinner (dropZone s))
               @ [FileInfo (name f) (badge_spinner_ids e (name f))]"
    and "requests (upload_settle e f (Resolved (Some d)) s) = requests s"
  using assms
  by (simp_all add: upload_settle_def upload_then_def handleUploadSuccess_def
        hideLoadingSpinner_def showNotification_def Let_def)

lemma remove_node_twice: "remove_node i (remove_node i s) = remove_node i s"
  by (simp add: remove_node_def)

subsection \<open>Rejected files\<close>

text \<open>
  Claim C4. For every file whose name does not end in \<open>.csv\<close>, \<open>handleFile\<close> appends the
  error notification \<open>Please select a CSV file\<close> and changes nothing else: no request is
  recorded, no spinner is shown, the current file stays what it was.
\<close>

theorem handleFile_rejects_other_names:
  assumes "\<not> suffix ''.csv'' (name f)"
  shows "handleFile (Some f) s =
           s\<lparr>notifications := notifications s @
                [\<lparr>ntext = ''Please select a CSV file'',
                  nclass = ''alert alert-danger notification''\<rparr>]\<rparr>
       \<and> requests (handleFile (Some f) s) = requests s
       \<and> dropZone (handleFile (Some f) s) = dropZone s
       \<and> currentFile (handleFile (Some f) s) = currentFile s"
proof -
  from assms have "\<not> endsWith (name f) ''.csv''"
    by (simp add: endsWith_iff_suffix)
  then have "handleFile (Some f) s =
           s\<lparr>notifications := notifications s @
                [\<lparr>ntext = ''Please select a CSV file'',
                  nclass = ''alert alert-danger notification''\<rparr>]\<rparr>"
    by (simp add: handleFile_def showNotification_def)
  then show ?thesis by simp
qed

text \<open>The theorem on the file \<open>data.txt\<close> dropped on the blank page.\<close>

theorem handleFile_rejects_other_names_witness:
  "\<not> suffix ''.csv'' (name \<lparr>name = ''data.txt''\<rparr>)
   \<and> handleFile (Some \<lparr>name = ''data.txt''\<rparr>) blank_page =
        blank_page\<lparr>notifications :=
          [\<lparr>ntext = ''Please select a CSV file'',
            nclass = ''alert alert-danger notification''\<rparr>]\<rparr>
   \<and> requests (handleFile (Some \<lparr>name = ''data.txt''\<rparr>) blank_page) = []"
proof -
  have a: "\<not> suffix ''.csv'' (name \<lparr>name = ''data.txt''\<rparr>)"
    by (simp add: endsWith_iff_suffix [symmetric] endsWith_def)
  have b: "notifications blank_page = []" "requests blank_page = []"
    by (simp_all add: blank_page_def)
  from handleFile_rejects_other_names [OF a, of blank_page] a show ?thesis
    by (simp add: b)
qed

subsection \<open>Empty queries\<close>

text \<open>
  Claim C5. When the value of the query input is empty after trimming, \<open>sendQuery\<close>
  returns with the page as it was: nothing is appended to the transcript (neither a user
  message nor a typing indicator) and no request is recorded.
\<close>

theorem sendQuery_ignores_blank_input:
  assumes "trim (queryInput_value s) = []"
  shows "sendQuery e s = (s, None)
       \<and> chatMessages (fst (sendQuery e s)) = chatMessages s
       \<and> requests (fst (sendQuery e s)) = requests s"
  using assms by (simp add: sendQuery_def)

text \<open>The theorem on an input of two blanks, a no-break space and a line separator.\<close>

theorem sendQuery_ignores_blank_input_witness:
  "trim (queryInput_value
      (blank_page\<lparr>queryInput_value :=
         ''  '' @ [CHR 0xC2, CHR 0xA0] @ [CHR 0xE2, CHR 0x80, CHR 0xA8]\<rparr>)) = []
   \<and> sendQuery paragraph_env
        (blank_page\<lparr>queryInput_value :=
           ''  '' @ [CHR 0xC2, CHR 0xA0] @ [CHR 0xE2, CHR 0x80, CHR 0xA8]\<rparr>)
       = (blank_page\<lparr>queryInput_value :=
            ''  '' @ [CHR 0xC2, CHR 0xA0] @ [CHR 0xE2, CHR 0x80, CHR 0xA8]\<rparr>, None)"
proof -
  let ?s = "blank_page\<lparr>queryInput_value :=
              ''  '' @ [CHR 0xC2, CHR 0xA0] @ [CHR 0xE2, CHR 0x80, CHR 0xA8]\<rparr>"
  have a: "trim (queryInput_value ?s) = []"
    by (simp add: trim_def white_space_def strip.simps)
  from sendQuery_ignores_blank_input [OF a, of paragraph_env] a show ?thesis by blast
qed

subsection \<open>Chat controls\<close>

text \<open>
  Claim C6. When an upload settles with a body that has no truthy error field and has
  statistics, the query input, the send button and the clear button are enabled
  afterwards, whatever they were before, so controls that were disabled become enabled;
  after \<open>deleteFile\<close> all three are disabled, in particular when the file deleted is one
  just uploaded.
\<close>

theorem chat_controls_follow_the_file:
  assumes "\<not> truthy (u_error d)" and "u_stats d = Stats rows columns"
  shows "\<not> queryInput_disabled (upload_settle e f (Resolved (Some d)) s)
       \<and> \<not> queryBtn_disabled (upload_settle e f (Resolved (Some d)) s)
       \<and> \<not> clearChat_disabled (upload_settle e f (Resolved (Some d)) s)
       \<and> queryInput_disabled (deleteFile t)
       \<and> queryBtn_disabled (deleteFile t)
       \<and> clearChat_disabled (deleteFile t)
       \<and> queryInput_disabled (deleteFile (upload_settle e f (Resolved (Some d)) s))
       \<and> queryBtn_disabled (deleteFile (upload_settle e f (Resolved (Some d)) s))
       \<and> clearChat_disabled (deleteFile (upload_settle e f (Resolved (Some d)) s))"
proof -
  have del: "queryInput_disabled (deleteFile t) \<and> queryBtn_disabled (deleteFile t)
       \<and> clearChat_disabled (deleteFile t)" for t
    by (simp add: deleteFile_def showNotification_def Let_def)
  have up: "\<not> queryInput_disabled (upload_settle e f (Resolved (Some d)) s)
       \<and> \<not> queryBtn_disabled (upload_settle e f (Resolved (Some d)) s)
       \<and> \<not> clearChat_disabled (upload_settle e f (Resolved (Some d)) s)"
    using assms
    by (simp add: upload_settle_def upload_then_def upload_catch_def handleUploadSuccess_def
                  showNotification_def hideLoadingSpinner_def Let_def)
  from up del [of t] del [of "upload_settle e f (Resolved (Some d)) s"] show ?thesis
    by blast
qed

text \<open>
  The theorem on \<open>data.csv\<close> uploaded from the blank page, answered with 10 rows and 3
  columns.
\<close>

theorem chat_controls_follow_the_file_witness:
  "\<not> truthy (u_error \<lparr>u_error = Undefined,
                        u_stats = Stats (Num True ''10'') (Num True ''3''),
                        u_preview = Str ''<table></table>''\<rparr>)
   \<and> u_stats \<lparr>u_error = Undefined, u_stats = Stats (Num True ''10'') (Num True ''3''),
               u_preview = Str ''<table></table>''\<rparr>
       = Stats (Num True ''10'') (Num True ''3'')
   \<and> queryInput_disabled (handleFile (Some \<lparr>name = ''data.csv''\<rparr>) blank_page)
   \<and> \<not> queryInput_disabled
        (upload_settle paragraph_env \<lparr>name = ''data.csv''\<rparr>
          (Resolved (Some \<lparr>u_error = Undefined,
                           u_stats = Stats (Num True ''10'') (Num True ''3''),
                           u_preview = Str ''<table></table>''\<rparr>))
          (handleFile (Some \<lparr>name = ''data.csv''\<rparr>) blank_page))
   \<and> queryInput_disabled
        (deleteFile
          (upload_settle paragraph_env \<lparr>name = ''data.csv''\<rparr>
            (Resolved (Some \<lparr>u_error = Undefined,
                             u_stats = Stats (Num True ''10'') (Num True ''3''),
                             u_preview = Str ''<table></table>''\<rparr>))
            (handleFile (Some \<lparr>name = ''data.csv''\<rparr>) blank_page)))"
proof -
  let ?d = "\<lparr>u_error = Undefined, u_stats = Stats (Num True ''10'') (Num True ''3''),
             u_preview = Str ''<table></table>''\<rparr>"
  let ?f = "\<lparr>name = ''data.csv''\<rparr>"
  have a: "\<not> truthy (u_error ?d)"
    and b: "u_stats ?d = Stats (Num True ''10'') (Num True ''3'')"
    by simp_all
  have c: "queryInput_disabled (handleFile (Some ?f) blank_page)"
    by (simp add: handleFile_def blank_page_def endsWith_def showLoadingSpinner_def
                  showNotification_def Let_def)
  from chat_controls_follow_the_file [OF a b, of paragraph_env ?f
      "handleFile (Some ?f) blank_page" blank_page] a b c
  show ?thesis by blast
qed

subsection \<open>Messages\<close>

text \<open>
  Claim C7. For every content string, \<open>addMessage\<close> with the role \<open>assistant\<close> appends an
  element whose content is the markup \<open>md.render\<close> returns for the string, assigned as
  markup; with the role \<open>user\<close> it appends an element whose content is the string itself,
  assigned as text. The user message is the same whatever the renderer is, so no part of
  the string is treated as markup, tags included.
\<close>

theorem addMessage_by_role:
  "(md_render e (Str c) = Inr html \<longrightarrow>
      addMessage e (Str c) ''assistant'' s =
        (s\<lparr>chatMessages := chatMessages s @
              [\<lparr>nid = next_id s, className = ''message assistant-message'',
                body = Html html\<rparr>],
           next_id := Suc (next_id s)\<rparr>, None))
   \<and> addMessage e (Str c) ''user'' s =
        (s\<lparr>chatMessages := chatMessages s @
              [\<lparr>nid = next_id s, className = ''message user-message'',
                body = Text (Str c)\<rparr>],
           next_id := Suc (next_id s)\<rparr>, None)
   \<and> addMessage e' (Str c) ''user'' s = addMessage e (Str c) ''user'' s"
  by (simp add: addMessage_def)

text \<open>The theorem on a content string that holds a tag.\<close>

theorem addMessage_by_role_witness:
  "md_render paragraph_env (Str ''<b>hi</b>'') = Inr ''<p><b>hi</b></p>''
   \<and> chatMessages (fst (addMessage paragraph_env (Str ''<b>hi</b>'') ''assistant'' blank_page))
       = [\<lparr>nid = 0, className = ''message assistant-message'',
           body = Html ''<p><b>hi</b></p>''\<rparr>]
   \<and> chatMessages (fst (addMessage paragraph_env (Str ''<b>hi</b>'') ''user'' blank_page))
       = [\<lparr>nid = 0, className = ''message user-message'', body = Text (Str ''<b>hi</b>'')\<rparr>]"
proof -
  have a: "md_render paragraph_env (Str ''<b>hi</b>'') = Inr ''<p><b>hi</b></p>''"
    by (simp add: paragraph_env_def)
  have b: "chatMessages blank_page = []" "next_id blank_page = 0"
    by (simp_all add: blank_page_def)
  from addMessage_by_role [of paragraph_env "''<b>hi</b>''" "''<p><b>hi</b></p>''"
      blank_page paragraph_env] a
  show ?thesis by (simp add: b)
qed

subsection \<open>The loading spinner\<close>

text \<open>
  Claim C8 is what the handlers set out to do, both calling \<open>hideLoadingSpinner\<close> first,
  but not what they do on every page: the spinner is looked up by its id, and the badge of
  an earlier upload can hold an element of the same id, brought in by the file name. On
  the blank page, the file \<open><img id=loadingSpinner>.csv\<close> is uploaded and answered with a
  success body; then \<open>b.csv\<close> is uploaded. While the second request is out, the drop zone
  holds the badge with the image and, after it, the spinner. Whether the second request
  is rejected or answered with a success body, settling removes the image in the badge,
  and the spinner stays.
\<close>

theorem spinner_left_after_settling:
  "requests (handleFile (Some \<lparr>name = ''b.csv''\<rparr>)
      (upload_settle paragraph_env \<lparr>name = ''<img id=loadingSpinner>.csv''\<rparr>
        (Resolved (Some \<lparr>u_error = Undefined,
                         u_stats = Stats (Num True ''10'') (Num True ''3''),
                         u_preview = Str ''<table></table>''\<rparr>))
        (handleFile (Some \<lparr>name = ''<img id=loadingSpinner>.csv''\<rparr>) blank_page)))
     = [Upload \<lparr>name = ''<img id=loadingSpinner>.csv''\<rparr>, Upload \<lparr>name = ''b.csv''\<rparr>]
   \<and> dropZone (handleFile (Some \<lparr>name = ''b.csv''\<rparr>)
      (upload_settle paragraph_env \<lparr>name = ''<img id=loadingSpinner>.csv''\<rparr>
        (Resolved (Some \<lparr>u_error = Undefined,
                         u_stats = Stats (Num True ''10'') (Num True ''3''),
                         u_preview = Str ''<table></table>''\<rparr>))
        (handleFile (Some \<lparr>name = ''<img id=loadingSpinner>.csv''\<rparr>) blank_page)))
     = [FileInfo ''<img id=loadingSpinner>.csv'' 1, Spinner]
   \<and> dropZone (upload_settle paragraph_env \<lparr>name = ''b.csv''\<rparr> (Rejected ''Failed to fetch'')
      (handleFile (Some \<lparr>name = ''b.csv''\<rparr>)
        (upload_settle paragraph_env \<lparr>name = ''<img id=loadingSpinner>.csv''\<rparr>
          (Resolved (Some \<lparr>u_error = Undefined,
                           u_stats = Stats (Num True ''10'') (Num True ''3''),
                           u_preview = Str ''<table></table>''\<rparr>))
          (handleFile (Some \<lparr>name = ''<img id=loadingSpinner>.csv''\<rparr>) blank_page))))
     = [FileInfo ''<img id=loadingSpinner>.csv'' 0, Spinner]
   \<and> dropZone (upload_settle paragraph_env \<lparr>name = ''b.csv''\<rparr>
        (Resolved (Some \<lparr>u_error = Undefined,
                         u_stats = Stats (Num True ''10'') (Num True ''3''),
                         u_preview = Str ''<table></table>''\<rparr>))
      (handleFile (Some \<lparr>name = ''b.csv''\<rparr>)
        (upload_settle paragraph_env \<lparr>name = ''<img id=loadingSpinner>.csv''\<rparr>
          (Resolved (Some \<lparr>u_error = Undefined,
                           u_stats = Stats (Num True ''10'') (Num True ''3''),
                           u_preview = Str ''<table></table>''\<rparr>))
          (handleFile (Some \<lparr>name = ''<img id=loadingSpinner>.csv''\<rparr>) blank_page))))
     = [Spinner, FileInfo ''b.csv'' 0]"
proof -
  let ?f1 = "\<lparr>name = ''<img id=loadingSpinner>.csv''\<rparr>"
  let ?f2 = "\<lparr>name = ''b.csv''\<rparr>"
  let ?d = "\<lparr>u_error = Undefined, u_stats = Stats (Num True ''10'') (Num True ''3''),
             u_preview = Str ''<table></table>''\<rparr>"
  let ?s1 = "handleFile (Some ?f1) blank_page"
  let ?s2 = "upload_settle paragraph_env ?f1 (Resolved (Some ?d)) ?s1"
  let ?s3 = "handleFile (Some ?f2) ?s2"
  have csv: "endsWith (name ?f1) ''.csv''" "endsWith (name ?f2) ''.csv''"
    by (simp_all add: endsWith_def)
  have ok: "\<not> truthy (u_error ?d)"
    "u_stats ?d = Stats (Num True ''10'') (Num True ''3'')"
    "badge_has_delete paragraph_env (name ?f1)" "badge_has_delete paragraph_env (name ?f2)"
    by (simp_all add: paragraph_env_def)
  have ids: "badge_spinner_ids paragraph_env ''<img id=loadingSpinner>.csv'' = 1"
    "badge_spinner_ids paragraph_env ''b.csv'' = 0"
    by (simp_all add: paragraph_env_def)
  have s1: "dropZone ?s1 = [Spinner]" "requests ?s1 = [Upload ?f1]"
    using handleFile_accepted [OF csv(1), of blank_page] by (simp_all add: blank_page_def)
  have s2: "dropZone ?s2 = [FileInfo ''<img id=loadingSpinner>.csv'' 1]"
    "requests ?s2 = [Upload ?f1]"
    using upload_settle_success [OF ok(1,2,3), of ?s1] by (simp_all add: s1 ids)
  have s3: "dropZone ?s3 = [FileInfo ''<img id=loadingSpinner>.csv'' 1, Spinner]"
    "requests ?s3 = [Upload ?f1, Upload ?f2]"
    using handleFile_accepted [OF csv(2), of ?s2] by (simp_all add: s2)
  have r: "dropZone (upload_settle paragraph_env ?f2 (Rejected ''Failed to fetch'') ?s3)
      = [FileInfo ''<img id=loadingSpinner>.csv'' 0, Spinner]"
    using upload_settle_rejected(1) [of paragraph_env ?f2 "''Failed to fetch''" ?s3]
    by (simp add: s3)
  have k: "dropZone (upload_settle paragraph_env ?f2 (Resolved (Some ?d)) ?s3)
      = [Spinner, FileInfo ''b.csv'' 0]"
    using upload_settle_success(1) [OF ok(1,2,4), of ?s3] by (simp add: s3 ids)
  from s3 r k show ?thesis by blast
qed

subsection \<open>Query errors\<close>

text \<open>
  Claim C9 as stated fails for a body whose error field is there but falsy: the handler
  tests \<open>if (data.error)\<close>, so a body with the empty string as error and a response is
  taken as a success. After the query \<open>hello\<close> from the blank page, such a body leaves an
  assistant message in the transcript and no notification.
\<close>

theorem query_error_field_empty_string:
  "q_error \<lparr>q_error = Str [], q_response = Str ''hi''\<rparr> \<noteq> Undefined
   \<and> sendQuery paragraph_env (blank_page\<lparr>queryInput_value := ''hello''\<rparr>)
       = (blank_page\<lparr>chatMessages :=
             [\<lparr>nid = 0, className = ''message user-message'', body = Text (Str ''hello'')\<rparr>,
              \<lparr>nid = 1, className = ''message assistant-message typing-indicator'',
                body = Html ''<span></span><span></span><span></span>''\<rparr>],
            next_id := 2, requests := [Query ''hello'']\<rparr>, Some 1)
   \<and> chatMessages (query_settle paragraph_env 1
         (Resolved (Some \<lparr>q_error = Str [], q_response = Str ''hi''\<rparr>))
         (fst (sendQuery paragraph_env (blank_page\<lparr>queryInput_value := ''hello''\<rparr>))))
       = [\<lparr>nid = 0, className = ''message user-message'', body = Text (Str ''hello'')\<rparr>,
          \<lparr>nid = 2, className = ''message assistant-message'', body = Html ''<p>hi</p>''\<rparr>]
   \<and> notifications (query_settle paragraph_env 1
         (Resolved (Some \<lparr>q_error = Str [], q_response = Str ''hi''\<rparr>))
         (fst (sendQuery paragraph_env (blank_page\<lparr>queryInput_value := ''hello''\<rparr>))))
       = []"
proof -
  have t: "trim ''hello'' = ''hello''"
    by (simp add: trim_def white_space_def strip.simps)
  have sq: "sendQuery paragraph_env (blank_page\<lparr>queryInput_value := ''hello''\<rparr>)
       = (blank_page\<lparr>chatMessages :=
             [\<lparr>nid = 0, className = ''message user-message'', body = Text (Str ''hello'')\<rparr>,
              \<lparr>nid = 1, className = ''message assistant-message typing-indicator'',
                body = Html ''<span></span><span></span><span></span>''\<rparr>],
            next_id := 2, requests := [Query ''hello'']\<rparr>, Some 1)"
    by (simp add: sendQuery_def t addMessage_def addTypingIndicator_def blank_page_def Let_def)
  show ?thesis
    unfolding sq
    by (simp add: query_settle_def query_then_def remove_node_def addMessage_def
                  paragraph_env_def blank_page_def Let_def)
qed

text \<open>
  Claim C9, amended. For every query response whose body has a truthy error field (a
  non-empty string, for one), settling the request removes the typing indicator, appends
  an error notification whose text is the error field as a string, and leaves the rest of
  the transcript as it was: no assistant message is appended.
\<close>

theorem query_error_is_notified:
  assumes "truthy (q_error d)"
  shows "query_settle e i (Resolved (Some d)) s
           = showNotification (to_string (q_error d)) ''error'' (remove_node i s)
       \<and> chatMessages (query_settle e i (Resolved (Some d)) s)
           = filter (\<lambda>n. nid n \<noteq> i) (chatMessages s)
       \<and> notifications (query_settle e i (Resolved (Some d)) s)
           = notifications s @
               [\<lparr>ntext = to_string (q_error d), nclass = ''alert alert-danger notification''\<rparr>]
       \<and> requests (query_settle e i (Resolved (Some d)) s) = requests s"
proof -
  from assms have "query_settle e i (Resolved (Some d)) s
           = showNotification (to_string (q_error d)) ''error'' (remove_node i s)"
    by (simp add: query_settle_def query_then_def query_catch_def Let_def remove_node_twice)
  then show ?thesis
    by (simp add: showNotification_def remove_node_def)
qed

text \<open>
  The theorem on the body with the error \<open>No data loaded\<close>, after the query \<open>hello\<close>
  from the blank page.
\<close>

theorem query_error_is_notified_witness:
  "truthy (q_error \<lparr>q_error = Str ''No data loaded'', q_response = Undefined\<rparr>)
   \<and> chatMessages (query_settle paragraph_env 1
         (Resolved (Some \<lparr>q_error = Str ''No data loaded'', q_response = Undefined\<rparr>))
         (fst (sendQuery paragraph_env (blank_page\<lparr>queryInput_value := ''hello''\<rparr>))))
       = [\<lparr>nid = 0, className = ''message user-message'', body = Text (Str ''hello'')\<rparr>]
   \<and> notifications (query_settle paragraph_env 1
         (Resolved (Some \<lparr>q_error = Str ''No data loaded'', q_response = Undefined\<rparr>))
         (fst (sendQuery paragraph_env (blank_page\<lparr>queryInput_value := ''hello''\<rparr>))))
       = [\<lparr>ntext = ''No data loaded'', nclass = ''alert alert-danger notification''\<rparr>]"
proof -
  let ?d = "\<lparr>q_error = Str ''No data loaded'', q_response = Undefined\<rparr>"
  let ?s = "fst (sendQuery paragraph_env (blank_page\<lparr>queryInput_value := ''hello''\<rparr>))"
  have a: "truthy (q_error ?d)" by simp
  have t: "trim ''hello'' = ''hello''"
    by (simp add: trim_def white_space_def strip.simps)
  have b: "chatMessages ?s =
       [\<lparr>nid = 0, className = ''message user-message'', body = Text (Str ''hello'')\<rparr>,
        \<lparr>nid = 1, className = ''message assistant-message typing-indicator'',
          body = Html ''<span></span><span></span><span></span>''\<rparr>]"
    and c: "notifications ?s = []"
    by (simp_all add: sendQuery_def t addMessage_def addTypingIndicator_def blank_page_def Let_def)
  note th = query_error_is_notified [OF a, of paragraph_env 1 ?s]
  from th have "chatMessages (query_settle paragraph_env 1 (Resolved (Some ?d)) ?s)
      = filter (\<lambda>n. nid n \<noteq> 1) (chatMessages ?s)"
    by blast
  then have m: "chatMessages (query_settle paragraph_env 1 (Resolved (Some ?d)) ?s)
      = [\<lparr>nid = 0, className = ''message user-message'', body = Text (Str ''hello'')\<rparr>]"
    unfolding b by simp
  from th have "notifications (query_settle paragraph_env 1 (Resolved (Some ?d)) ?s)
      = notifications ?s @
          [\<lparr>ntext = to_string (q_error ?d), nclass = ''alert alert-danger notification''\<rparr>]"
    by blast
  then have n: "notifications (query_settle paragraph_env 1 (Resolved (Some ?d)) ?s)
      = [\<lparr>ntext = ''No data loaded'', nclass = ''alert alert-danger notification''\<rparr>]"
    unfolding c by simp
  from a m n show ?thesis by blast
qed

end
